theory Spec2Isabelle
  imports Main "HOL-Library.Char_ord" "HOL-Library.List_Lexorder" "HOL-Library.Sublist"
begin

section \<open>The argument sanitizer of \<open>src/helpers/fastmcp_patch.py\<close>\<close>

text \<open>
  The module replaces \<open>FunctionTool.run\<close> by \<open>_run_with_arg_sanitizer\<close>, which drops
  every key of the incoming payload that the wrapped function's signature does not
  declare and then delegates to the method it replaced.

  Python values, exceptions, the tool object and the effects of the wrapper (the write to
  the tool's cache attribute, the record handed to the logger, the call of
  \<open>inspect.signature\<close>) are modelled explicitly; the wrapper passes a state and returns it
  updated.
\<close>

subsection \<open>Values and exceptions\<close>

text \<open>
  A payload is any Python value. A \<open>dict\<close> is the list of its items in iteration
  (insertion) order; its keys are strings, as the annotation \<open>Dict[str, Any]\<close> of the source
  says. A Python \<open>dict\<close> never holds a key twice; the theorems below do not need that and
  hold for every item list.
\<close>

datatype pyval =
    PNone
  | PBool bool
  | PInt int
  | PStr string
  | PList "pyval list"
  | PDict "(string \<times> pyval) list"

text \<open>An exception is its type name and its message.\<close>

datatype exn = Exn (exc_type: string) (exc_message: string)

fun isinstance_dict :: "pyval \<Rightarrow> bool" where
  "isinstance_dict (PDict kvs) = True"
| "isinstance_dict v = False"

fun items :: "pyval \<Rightarrow> (string \<times> pyval) list" where
  "items (PDict kvs) = kvs"
| "items v = []"

subsection \<open>The tool object and the state\<close>

text \<open>
  \<open>inspect.signature\<close> belongs to the standard library, so a callable carries what the call
  \<open>inspect.signature(fn)\<close> gives for it: the parameter names in declaration order, or the
  exception it raises (\<open>ValueError\<close> or \<open>TypeError\<close>) when no signature can be found.
\<close>

record callable =
  fn_name :: "string option"
  fn_signature :: "exn + string list"

text \<open>
  The attributes of \<open>self\<close> that the wrapper reads or writes. An attribute that may be
  missing is an option: \<open>allowed_parameter_names\<close> is \<open>_allowed_parameter_names\<close>, and it is
  \<open>None\<close> exactly when \<open>hasattr\<close> is false.
\<close>

record tool =
  name :: "string option"
  fn :: callable
  allowed_parameter_names :: "string list option"

text \<open>
  The state: the tool, the records given to \<open>log.debug\<close> (tool name and removed keys, in
  order of emission), the number of calls of \<open>inspect.signature\<close> made so far, and the
  state of the framework, on which the replaced method acts.
\<close>

record 'w world =
  self :: tool
  debug_log :: "(string \<times> string list) list"
  signature_calls :: nat
  framework :: 'w

text \<open>
  An entry point is a \<open>run\<close> method: it takes the payload and gives a result or an
  exception. The framework's own method reads the tool and acts on the framework's state;
  it does not touch the cache attribute or the sanitizer's logger.
\<close>

type_synonym ('w, 'r) entry = "pyval \<Rightarrow> 'w world \<Rightarrow> (exn + 'r) \<times> 'w world"

definition framework_run ::
  "(tool \<Rightarrow> pyval \<Rightarrow> 'w \<Rightarrow> (exn + 'r) \<times> 'w) \<Rightarrow> ('w, 'r) entry" where
  "framework_run f arguments s =
     (case f (self s) arguments (framework s) of
        (r, w) \<Rightarrow> (r, s\<lparr>framework := w\<rparr>))"

subsection \<open>The wrapper\<close>

text \<open>
  Lines 42 to 46: the allowed names are read from the cache attribute; when the attribute
  is missing, the signature is inspected and its parameter names are stored first. An
  exception of \<open>inspect.signature\<close> is not caught, and nothing is stored then.
\<close>

definition resolve :: "'w world \<Rightarrow> (exn + string list) \<times> 'w world" where
  "resolve s =
     (case allowed_parameter_names (self s) of
        Some allowed \<Rightarrow> (Inr allowed, s)
      | None \<Rightarrow>
          (let s1 = s\<lparr>signature_calls := Suc (signature_calls s)\<rparr> in
           case fn_signature (fn (self s1)) of
             Inl e \<Rightarrow> (Inl e, s1)
           | Inr names \<Rightarrow>
               (Inr names, s1\<lparr>self := (self s1)\<lparr>allowed_parameter_names := Some names\<rparr>\<rparr>)))"

text \<open>Line 47: \<open>{k: v for k, v in arguments.items() if k in allowed}\<close>.\<close>

definition sanitized :: "(string \<times> pyval) list \<Rightarrow> string list \<Rightarrow> (string \<times> pyval) list" where
  "sanitized kvs allowed = filter (\<lambda>(k, v). k \<in> set allowed) kvs"

text \<open>Line 50: \<open>sorted(set(arguments.keys()) - set(allowed))\<close>.\<close>

definition removed :: "(string \<times> pyval) list \<Rightarrow> string list \<Rightarrow> string list" where
  "removed kvs allowed = sorted_list_of_set (set (map fst kvs) - set allowed)"

text \<open>
  Line 51: \<open>getattr(self, "name", getattr(self.fn, "__name__", "<unknown>"))\<close>.
\<close>

definition tool_name :: "tool \<Rightarrow> string" where
  "tool_name t =
     (case name t of
        Some n \<Rightarrow> n
      | None \<Rightarrow> (case fn_name (fn t) of Some n \<Rightarrow> n | None \<Rightarrow> ''<unknown>''))"

definition log_debug :: "string \<Rightarrow> string list \<Rightarrow> 'w world \<Rightarrow> 'w world" where
  "log_debug tname keys s = s\<lparr>debug_log := debug_log s @ [(tname, keys)]\<rparr>"

text \<open>\<open>_run_with_arg_sanitizer\<close>, with the replaced method \<open>_original_run\<close> as a parameter.\<close>

definition run_with_arg_sanitizer :: "('w, 'r) entry \<Rightarrow> ('w, 'r) entry" where
  "run_with_arg_sanitizer original_run arguments s =
     (if \<not> isinstance_dict arguments then original_run arguments s
      else
        case resolve s of
          (Inl e, s1) \<Rightarrow> (Inl e, s1)
        | (Inr allowed, s1) \<Rightarrow>
            (let san = sanitized (items arguments) allowed;
                 s2 = (if length san \<noteq> length (items arguments)
                       then log_debug (tool_name (self s1)) (removed (items arguments) allowed) s1
                       else s1)
             in original_run (PDict san) s2))"

text \<open>
  The payload part of the wrapper on its own: the value handed to the replaced method and
  the keys reported to the logger (none when nothing is logged), for a payload and the
  allowed names.
\<close>

definition sanitize :: "pyval \<Rightarrow> string list \<Rightarrow> pyval \<times> string list" where
  "sanitize arguments allowed =
     (if \<not> isinstance_dict arguments then (arguments, [])
      else
        (let san = sanitized (items arguments) allowed
         in (PDict san,
             if length san \<noteq> length (items arguments)
             then removed (items arguments) allowed else [])))"

subsection \<open>Installing the wrapper\<close>







text \<open>\<open>n\<close> calls of the resolver in a row, with the result of each.\<close>

fun resolve_times :: "nat \<Rightarrow> 'w world \<Rightarrow> (exn + string list) list \<times> 'w world" where
  "resolve_times 0 s = ([], s)"
| "resolve_times (Suc n) s =
     (case resolve s of
        (r, s1) \<Rightarrow> (case resolve_times n s1 of (rs, s2) \<Rightarrow> (r # rs, s2)))"

text \<open>The state after a sequence of invocations of an entry point, results dropped.\<close>

fun invocations :: "('w, 'r) entry \<Rightarrow> pyval list \<Rightarrow> 'w world \<Rightarrow> 'w world" where
  "invocations run [] s = s"
| "invocations run (p # ps) s = invocations run ps (snd (run p s))"

subsection \<open>Example registrations\<close>

text \<open>
  A tool whose function declares \<open>ticket_id\<close> and \<open>note\<close>, a tool whose function has no
  signature that \<open>inspect.signature\<close> can find, a state around a tool before its first
  call, and a framework method that returns the payload it was given.
\<close>

definition note_tool :: tool where
  "note_tool =
     \<lparr>name = Some ''add_note'',
      fn = \<lparr>fn_name = Some ''add_note'', fn_signature = Inr [''ticket_id'', ''note'']\<rparr>,
      allowed_parameter_names = None\<rparr>"

definition opaque_tool :: tool where
  "opaque_tool =
     \<lparr>name = Some ''builtin'',
      fn = \<lparr>fn_name = Some ''builtin'',
            fn_signature = Inl (Exn ''ValueError'' ''no signature found'')\<rparr>,
      allowed_parameter_names = None\<rparr>"

definition initial :: "tool \<Rightarrow> unit world" where
  "initial t = \<lparr>self = t, debug_log = [], signature_calls = 0, framework = ()\<rparr>"

definition echo :: "tool \<Rightarrow> pyval \<Rightarrow> unit \<Rightarrow> (exn + pyval) \<times> unit" where
  "echo t arguments w = (Inr arguments, w)"

definition call_payload :: pyval where
  "call_payload =
     PDict [(''ticket_id'', PInt 42), (''note'', PStr ''hi''), (''toolCallId'', PStr ''abc123'')]"





section \<open>Auxiliary facts\<close>

lemma sanitized_keys: "map fst (sanitized kvs allowed) = filter (\<lambda>k. k \<in> set allowed) (map fst kvs)"
  by (induction kvs) (auto simp: sanitized_def)

lemma sanitized_set: "set (sanitized kvs allowed) = {(k, v) \<in> set kvs. k \<in> set allowed}"
  by (auto simp: sanitized_def)

lemma sanitized_map_of: "map_of (sanitized kvs allowed) = map_of kvs |` set allowed"
  by (induction kvs) (auto simp: sanitized_def restrict_map_def fun_eq_iff)

lemma sanitized_idem: "sanitized (sanitized kvs allowed) allowed = sanitized kvs allowed"
  by (simp add: sanitized_def)

lemma sanitized_length_iff:
  "length (sanitized kvs allowed) = length kvs \<longleftrightarrow> set (map fst kvs) - set allowed = {}"
proof (cases "\<forall>x \<in> set kvs. fst x \<in> set allowed")
  case True
  then have "sanitized kvs allowed = kvs"
    unfolding sanitized_def by (auto simp: filter_id_conv)
  with True show ?thesis by auto
next
  case False
  then obtain x where x: "x \<in> set kvs" "fst x \<notin> set allowed" by blast
  then have "length (sanitized kvs allowed) < length kvs"
    unfolding sanitized_def by (intro length_filter_less [of x]) (auto simp: case_prod_beta)
  with x show ?thesis by force
qed

lemma sanitized_subseq: "subseq (sanitized kvs allowed) kvs"
  by (simp add: sanitized_def)

lemma removed_set: "set (removed kvs allowed) = fst ` set kvs - set allowed"
  by (simp add: removed_def)

lemma removed_sorted: "sorted (removed kvs allowed) \<and> distinct (removed kvs allowed)"
  by (simp add: removed_def)

lemma resolve_cached:
  "allowed_parameter_names (self s) = Some a \<Longrightarrow> resolve s = (Inr a, s)"
  by (simp add: resolve_def)

lemma resolve_fresh_ok:
  "allowed_parameter_names (self s) = None \<Longrightarrow> fn_signature (fn (self s)) = Inr names \<Longrightarrow>
   resolve s =
     (Inr names,
      s\<lparr>signature_calls := Suc (signature_calls s),
        self := (self s)\<lparr>allowed_parameter_names := Some names\<rparr>\<rparr>)"
  by (simp add: resolve_def)

lemma resolve_fresh_fail:
  "allowed_parameter_names (self s) = None \<Longrightarrow> fn_signature (fn (self s)) = Inl e \<Longrightarrow>
   resolve s = (Inl e, s\<lparr>signature_calls := Suc (signature_calls s)\<rparr>)"
  by (simp add: resolve_def)


lemma run_dict:
  "resolve s = (Inr allowed, s1) \<Longrightarrow>
   run_with_arg_sanitizer orig (PDict kvs) s =
     orig (PDict (sanitized kvs allowed))
       (if length (sanitized kvs allowed) \<noteq> length kvs
        then log_debug (tool_name (self s1)) (removed kvs allowed) s1 else s1)"
  by (simp add: run_with_arg_sanitizer_def Let_def)

lemma run_dict_fail:
  "resolve s = (Inl e, s1) \<Longrightarrow> run_with_arg_sanitizer orig (PDict kvs) s = (Inl e, s1)"
  by (simp add: run_with_arg_sanitizer_def)

lemma run_not_dict:
  "\<not> isinstance_dict arguments \<Longrightarrow> run_with_arg_sanitizer orig arguments s = orig arguments s"
  by (simp add: run_with_arg_sanitizer_def)

lemma isinstance_dict_items: "isinstance_dict arguments \<Longrightarrow> arguments = PDict (items arguments)"
  by (cases arguments) simp_all

lemma sanitize_dict:
  "sanitize (PDict kvs) allowed =
     (PDict (sanitized kvs allowed),
      if length (sanitized kvs allowed) \<noteq> length kvs then removed kvs allowed else [])"
  by (simp add: sanitize_def Let_def)

lemma sanitize_not_dict: "\<not> isinstance_dict arguments \<Longrightarrow> sanitize arguments allowed = (arguments, [])"
  by (simp add: sanitize_def)

section \<open>The payload\<close>

text \<open>
  C1. For a payload that is a mapping, the sanitized payload holds exactly the entries of
  the payload whose key is among the allowed names: its entries are those entries, its keys
  are the keys of the payload that are allowed (so an allowed name that the payload lacks
  does not appear), and every key is mapped to what the payload mapped it to. Once the
  allowed names are resolved, this is the payload the wrapper hands to the replaced method.
\<close>

theorem sanitize_keeps_exactly_allowed:
  assumes "resolve s = (Inr allowed, s1)"
  shows "fst (sanitize (PDict kvs) allowed) = PDict (sanitized kvs allowed)
       \<and> set (sanitized kvs allowed) = {(k, v) \<in> set kvs. k \<in> set allowed}
       \<and> fst ` set (sanitized kvs allowed) = fst ` set kvs \<inter> set allowed
       \<and> map_of (sanitized kvs allowed) = map_of kvs |` set allowed
       \<and> (\<exists>s2. run_with_arg_sanitizer orig (PDict kvs) s = orig (PDict (sanitized kvs allowed)) s2)"
proof -
  have keys: "fst ` set (sanitized kvs allowed) = fst ` set kvs \<inter> set allowed"
    by (force simp: sanitized_set)
  have "\<exists>s2. run_with_arg_sanitizer orig (PDict kvs) s = orig (PDict (sanitized kvs allowed)) s2"
    using run_dict [OF assms] by blast
  with keys show ?thesis
    by (simp add: sanitize_dict sanitized_set sanitized_map_of)
qed

theorem sanitize_keeps_exactly_allowed_witness:
  "resolve (initial note_tool) =
     (Inr [''ticket_id'', ''note''],
      (initial note_tool)\<lparr>signature_calls := 1,
        self := note_tool\<lparr>allowed_parameter_names := Some [''ticket_id'', ''note'']\<rparr>\<rparr>)
   \<and> fst (sanitize call_payload [''ticket_id'', ''note'']) =
       PDict [(''ticket_id'', PInt 42), (''note'', PStr ''hi'')]
   \<and> map_of (sanitized (items call_payload) [''ticket_id'', ''note'']) ''toolCallId'' = None
   \<and> (\<exists>s2. run_with_arg_sanitizer (framework_run echo) call_payload (initial note_tool) =
          framework_run echo (PDict [(''ticket_id'', PInt 42), (''note'', PStr ''hi'')]) s2)"
proof -
  have h: "resolve (initial note_tool) =
     (Inr [''ticket_id'', ''note''],
      (initial note_tool)\<lparr>signature_calls := 1,
        self := note_tool\<lparr>allowed_parameter_names := Some [''ticket_id'', ''note'']\<rparr>\<rparr>)"
    by (simp add: resolve_def initial_def note_tool_def)
  show ?thesis
    using h sanitize_keeps_exactly_allowed
      [OF h, where kvs = "items call_payload" and orig = "framework_run echo"]
    by (simp add: call_payload_def sanitized_def)
qed

text \<open>
  C2. For a payload that is not a mapping, sanitization is the identity and reports no
  dropped key, whatever the allowed names are; the wrapper calls the replaced method with
  that same payload in the same state, so nothing is logged before the call.
\<close>

theorem non_mapping_payload_unchanged:
  assumes "\<not> isinstance_dict arguments"
  shows "sanitize arguments allowed = (arguments, [])
       \<and> run_with_arg_sanitizer orig arguments s = orig arguments s"
  using assms by (simp add: sanitize_not_dict run_not_dict)

theorem non_mapping_payload_unchanged_witness:
  "\<not> isinstance_dict (PStr ''not-a-mapping'')
   \<and> sanitize (PStr ''not-a-mapping'') [''x''] = (PStr ''not-a-mapping'', [])
   \<and> run_with_arg_sanitizer (framework_run echo) (PStr ''not-a-mapping'') (initial note_tool) =
       (Inr (PStr ''not-a-mapping''), initial note_tool)"
proof -
  have h: "\<not> isinstance_dict (PStr ''not-a-mapping'')" by simp
  show ?thesis
    using h non_mapping_payload_unchanged [OF h, of "[''x'']" "framework_run echo" "initial note_tool"]
    by (simp add: framework_run_def echo_def)
qed

text \<open>
  C5. Sanitizing a sanitized payload again with the same allowed names gives the same
  payload, and the second application drops no key.
\<close>

theorem sanitize_idempotent:
  "fst (sanitize (fst (sanitize arguments allowed)) allowed) = fst (sanitize arguments allowed)
   \<and> snd (sanitize (fst (sanitize arguments allowed)) allowed) = []"
proof (cases "isinstance_dict arguments")
  case True
  then obtain kvs where "arguments = PDict kvs"
    using isinstance_dict_items by blast
  then show ?thesis
    by (simp add: sanitize_dict sanitized_idem)
next
  case False
  then show ?thesis
    by (simp add: sanitize_not_dict)
qed

text \<open>
  C9. The sanitized payload keeps the retained entries in the order in which the payload
  iterates over them: its item list is a subsequence of the payload's item list, and its
  key list is the payload's key list with the keys that are not allowed left out.
\<close>

theorem sanitized_preserves_order:
  "fst (sanitize (PDict kvs) allowed) = PDict (sanitized kvs allowed)
   \<and> subseq (sanitized kvs allowed) kvs
   \<and> map fst (sanitized kvs allowed) = filter (\<lambda>k. k \<in> set allowed) (map fst kvs)"
  by (simp add: sanitize_dict sanitized_subseq sanitized_keys)

section \<open>The resolver\<close>

lemma resolve_times_cached:
  "allowed_parameter_names (self s) = Some a \<Longrightarrow> resolve_times n s = (replicate n (Inr a), s)"
  by (induction n) (simp_all add: resolve_cached)

lemma resolve_times_fail:
  "allowed_parameter_names (self s) = None \<Longrightarrow> fn_signature (fn (self s)) = Inl e \<Longrightarrow>
   resolve_times n s = (replicate n (Inl e), s\<lparr>signature_calls := signature_calls s + n\<rparr>)"
proof (induction n arbitrary: s)
  case 0
  then show ?case by simp
next
  case (Suc n)
  let ?s1 = "s\<lparr>signature_calls := Suc (signature_calls s)\<rparr>"
  have "resolve_times n ?s1 = (replicate n (Inl e), ?s1\<lparr>signature_calls := signature_calls ?s1 + n\<rparr>)"
    using Suc.prems by (intro Suc.IH) simp_all
  with Suc.prems show ?case
    by (simp add: resolve_fresh_fail)
qed

lemma resolve_times_first:
  "resolve_times (Suc n) s =
     (fst (resolve s) # fst (resolve_times n (snd (resolve s))), snd (resolve_times n (snd (resolve s))))"
  by (simp split: prod.splits)

text \<open>
  C3, for a signature that can be inspected. For every registration and every \<open>n \<ge> 1\<close>, each of \<open>n\<close> calls of the
  resolver in a row gives the result of the first call. When the callable's signature can
  be inspected, that result is the cached names, or the parameter names of the signature in
  declaration order when nothing was cached; after the first call the names are stored, the
  later calls leave the whole state as the first call left it (so the stored names are never
  written again), and \<open>inspect.signature\<close> has been called at most once.
\<close>

theorem resolve_idempotent:
  assumes "1 \<le> n"
  shows "fst (resolve_times n s) = replicate n (fst (resolve s))
       \<and> fst (resolve_times n s) ! (n - 1) = fst (resolve s)
       \<and> (fn_signature (fn (self s)) = Inr names \<longrightarrow>
            fst (resolve s) =
              Inr (case allowed_parameter_names (self s) of None \<Rightarrow> names | Some a \<Rightarrow> a)
          \<and> allowed_parameter_names (self (snd (resolve s))) =
              Some (case allowed_parameter_names (self s) of None \<Rightarrow> names | Some a \<Rightarrow> a)
          \<and> snd (resolve_times n s) = snd (resolve s)
          \<and> signature_calls (snd (resolve_times n s)) \<le> Suc (signature_calls s))"
proof -
  obtain m where n: "n = Suc m" using assms by (cases n) simp_all
  have rep: "fst (resolve_times n s) = replicate n (fst (resolve s))"
  proof (cases "allowed_parameter_names (self s)")
    case (Some a)
    then show ?thesis by (simp add: resolve_times_cached resolve_cached)
  next
    case None
    show ?thesis
    proof (cases "fn_signature (fn (self s))")
      case (Inl e)
      with None show ?thesis by (simp add: resolve_times_fail resolve_fresh_fail)
    next
      case (Inr names')
      with None show ?thesis
        unfolding n resolve_times_first
        by (simp add: resolve_fresh_ok resolve_times_cached)
    qed
  qed
  have nth: "fst (resolve_times n s) ! (n - 1) = fst (resolve s)"
    unfolding rep using assms by simp
  have rest: "fst (resolve s) =
              Inr (case allowed_parameter_names (self s) of None \<Rightarrow> names | Some a \<Rightarrow> a)
          \<and> allowed_parameter_names (self (snd (resolve s))) =
              Some (case allowed_parameter_names (self s) of None \<Rightarrow> names | Some a \<Rightarrow> a)
          \<and> snd (resolve_times n s) = snd (resolve s)
          \<and> signature_calls (snd (resolve_times n s)) \<le> Suc (signature_calls s)"
    if sig: "fn_signature (fn (self s)) = Inr names"
  proof (cases "allowed_parameter_names (self s)")
    case (Some a)
    then show ?thesis by (simp add: resolve_times_cached resolve_cached)
  next
    case None
    with sig show ?thesis
      unfolding n resolve_times_first
      by (simp add: resolve_fresh_ok resolve_times_cached)
  qed
  from rep nth rest show ?thesis by blast
qed

theorem resolve_idempotent_witness:
  "(1::nat) \<le> 3
   \<and> fn_signature (fn (self (initial note_tool))) = Inr [''ticket_id'', ''note'']
   \<and> fst (resolve_times 3 (initial note_tool)) = replicate 3 (Inr [''ticket_id'', ''note''])
   \<and> signature_calls (snd (resolve_times 3 (initial note_tool))) = 1
   \<and> allowed_parameter_names (self (snd (resolve_times 3 (initial note_tool)))) =
       Some [''ticket_id'', ''note'']"
proof -
  have h: "(1::nat) \<le> 3" by simp
  have r: "resolve (initial note_tool) =
     (Inr [''ticket_id'', ''note''],
      (initial note_tool)\<lparr>signature_calls := 1,
        self := note_tool\<lparr>allowed_parameter_names := Some [''ticket_id'', ''note'']\<rparr>\<rparr>)"
    by (simp add: resolve_def initial_def note_tool_def)
  have g: "fn_signature (fn (self (initial note_tool))) = Inr [''ticket_id'', ''note'']"
    by (simp add: initial_def note_tool_def)
  show ?thesis
    using h g resolve_idempotent [OF h, of "initial note_tool" "[''ticket_id'', ''note'']"]
    by (simp add: r)
qed

text \<open>
  C3 as stated fails for a callable without a signature: a failed inspection stores nothing,
  so the second call of the resolver inspects the signature again.
\<close>

theorem resolve_twice_opaque_counterexample:
  "fst (resolve_times 2 (initial opaque_tool)) =
     [Inl (Exn ''ValueError'' ''no signature found''), Inl (Exn ''ValueError'' ''no signature found'')]
   \<and> signature_calls (initial opaque_tool) = 0
   \<and> signature_calls (snd (resolve_times 2 (initial opaque_tool))) = 2"
  by (simp add: numeral_2_eq_2 resolve_def initial_def opaque_tool_def)

section \<open>The wrapper\<close>


lemma resolve_cases:
  obtains (ok) allowed s1 where "resolve s = (Inr allowed, s1)"
  | (fail) e s1 where "resolve s = (Inl e, s1)"
  by (cases "resolve s"; cases "fst (resolve s)") auto

text \<open>
  C4. Whatever the payload and the registration, the wrapper ends by calling the replaced
  method, on a payload and in a state that do not depend on that method, and its outcome is
  the outcome of that call: an exception of the replaced method is the wrapper's exception,
  with the same type and message, and a value it returns is the wrapper's value. The one
  case in which the wrapper's outcome is not the replaced method's is the one in which that
  method is never called, because the resolver raised.
\<close>

theorem original_outcome_unchanged:
  "(\<exists>p s'. \<forall>orig :: ('w, 'r) entry. run_with_arg_sanitizer orig arguments s = orig p s')
   \<or> (\<exists>e s'. isinstance_dict arguments \<and> resolve s = (Inl e, s')
        \<and> (\<forall>orig :: ('w, 'r) entry. run_with_arg_sanitizer orig arguments s = (Inl e, s')))"
proof (cases "isinstance_dict arguments")
  case False
  then have "\<forall>orig :: ('w, 'r) entry. run_with_arg_sanitizer orig arguments s = orig arguments s"
    by (simp add: run_not_dict)
  then show ?thesis by blast
next
  case True
  then obtain kvs where kvs: "arguments = PDict kvs"
    using isinstance_dict_items by blast
  show ?thesis
  proof (cases s rule: resolve_cases)
    case (ok allowed s1)
    show ?thesis
      unfolding kvs using run_dict [OF ok, of _ kvs] by blast
  next
    case (fail e s1)
    show ?thesis
      unfolding kvs using fail run_dict_fail [OF fail, of _ kvs] by auto
  qed
qed

text \<open>
  C6. For a mapping payload, the removed keys are the payload's keys minus the allowed
  names, in ascending order and without repetition. When that set is not empty, the wrapper
  gives the logger one record, the tool's name with the removed keys, and otherwise none;
  in both cases it goes on to call the replaced method with the sanitized payload, so an
  unknown key never makes the wrapper raise.
\<close>

theorem unknown_keys_reported_not_raised:
  assumes "resolve s = (Inr allowed, s1)"
  shows "set (removed kvs allowed) = fst ` set kvs - set allowed
       \<and> sorted (removed kvs allowed) \<and> distinct (removed kvs allowed)
       \<and> run_with_arg_sanitizer orig (PDict kvs) s =
           orig (PDict (sanitized kvs allowed))
             (if fst ` set kvs - set allowed \<noteq> {}
              then s1\<lparr>debug_log := debug_log s1 @ [(tool_name (self s), removed kvs allowed)]\<rparr>
              else s1)"
proof -
  have len: "length (sanitized kvs allowed) \<noteq> length kvs \<longleftrightarrow> fst ` set kvs - set allowed \<noteq> {}"
    using sanitized_length_iff [of kvs allowed] by simp
  have nm: "tool_name (self s1) = tool_name (self s)"
    using assms by (auto simp: resolve_def Let_def tool_name_def split: option.splits sum.splits)
  show ?thesis
    using run_dict [OF assms, of orig kvs] len nm
    by (simp add: removed_set removed_sorted log_debug_def)
qed

lemma tool_name_name: "name t = Some n \<Longrightarrow> tool_name t = n"
  by (simp add: tool_name_def)

theorem unknown_keys_reported_not_raised_witness:
  "resolve (initial note_tool) =
     (Inr [''ticket_id'', ''note''],
      (initial note_tool)\<lparr>signature_calls := 1,
        self := note_tool\<lparr>allowed_parameter_names := Some [''ticket_id'', ''note'']\<rparr>\<rparr>)
   \<and> run_with_arg_sanitizer (framework_run echo) call_payload (initial note_tool) =
       (Inr (PDict [(''ticket_id'', PInt 42), (''note'', PStr ''hi'')]),
        \<lparr>self = note_tool\<lparr>allowed_parameter_names := Some [''ticket_id'', ''note'']\<rparr>,
         debug_log = [(''add_note'', [''toolCallId''])], signature_calls = 1, framework = ()\<rparr>)"
proof -
  have h: "resolve (initial note_tool) =
     (Inr [''ticket_id'', ''note''],
      (initial note_tool)\<lparr>signature_calls := 1,
        self := note_tool\<lparr>allowed_parameter_names := Some [''ticket_id'', ''note'']\<rparr>\<rparr>)"
    by (simp add: resolve_def initial_def note_tool_def)
  have r: "removed [(''ticket_id'', PInt 42), (''note'', PStr ''hi''), (''toolCallId'', PStr ''abc123'')]
             [''ticket_id'', ''note''] = [''toolCallId'']"
    by code_simp
  have n: "tool_name note_tool = ''add_note''"
    by (simp add: tool_name_def note_tool_def)
  show ?thesis
    using h unknown_keys_reported_not_raised
      [OF h, where kvs = "items call_payload" and orig = "framework_run echo"]
    by (simp add: r n call_payload_def sanitized_def framework_run_def echo_def initial_def)
qed

section \<open>A callable without a signature\<close>

lemma run_framework_opaque:
  assumes "fn_signature (fn (self s)) = Inl e" and "allowed_parameter_names (self s) = None"
  shows "self (snd (run_with_arg_sanitizer (framework_run f) p s)) = self s"
proof (cases "isinstance_dict p")
  case False
  then show ?thesis
    by (simp add: run_not_dict framework_run_def split: prod.splits)
next
  case True
  then obtain kvs where "p = PDict kvs"
    using isinstance_dict_items by blast
  then show ?thesis
    using run_dict_fail [OF resolve_fresh_fail [OF assms(2) assms(1)], of "framework_run f" kvs]
    by simp
qed

lemma invocations_opaque:
  "fn_signature (fn (self s)) = Inl e \<Longrightarrow> allowed_parameter_names (self s) = None \<Longrightarrow>
   self (invocations (run_with_arg_sanitizer (framework_run f)) ps s) = self s"
proof (induction ps arbitrary: s)
  case Nil
  then show ?case by simp
next
  case (Cons p ps)
  have eq: "self (snd (run_with_arg_sanitizer (framework_run f) p s)) = self s"
    using Cons.prems by (rule run_framework_opaque)
  have "self (invocations (run_with_arg_sanitizer (framework_run f)) ps
               (snd (run_with_arg_sanitizer (framework_run f) p s)))
        = self (snd (run_with_arg_sanitizer (framework_run f) p s))"
    by (rule Cons.IH) (simp_all add: eq Cons.prems)
  with eq show ?case by simp
qed

lemma run_framework_opaque_calls:
  assumes "fn_signature (fn (self s)) = Inl e" and "allowed_parameter_names (self s) = None"
  shows "signature_calls (snd (run_with_arg_sanitizer (framework_run f) p s)) =
         signature_calls s + (if isinstance_dict p then 1 else 0)"
proof (cases "isinstance_dict p")
  case False
  then show ?thesis
    by (simp add: run_not_dict framework_run_def split: prod.splits)
next
  case True
  then obtain kvs where "p = PDict kvs"
    using isinstance_dict_items by blast
  then show ?thesis
    using run_dict_fail [OF resolve_fresh_fail [OF assms(2) assms(1)], of "framework_run f" kvs]
    by simp
qed

lemma invocations_opaque_calls:
  "fn_signature (fn (self s)) = Inl e \<Longrightarrow> allowed_parameter_names (self s) = None \<Longrightarrow>
   signature_calls (invocations (run_with_arg_sanitizer (framework_run f)) ps s) =
   signature_calls s + length (filter isinstance_dict ps)"
proof (induction ps arbitrary: s)
  case Nil
  then show ?case by simp
next
  case (Cons p ps)
  let ?s1 = "snd (run_with_arg_sanitizer (framework_run f) p s)"
  have eq: "self ?s1 = self s"
    using Cons.prems by (rule run_framework_opaque)
  have "signature_calls (invocations (run_with_arg_sanitizer (framework_run f)) ps ?s1) =
        signature_calls ?s1 + length (filter isinstance_dict ps)"
    by (rule Cons.IH) (simp_all add: eq Cons.prems)
  then show ?case
    using run_framework_opaque_calls [OF Cons.prems, of f p] by simp
qed

text \<open>
  C7, with the moment of the failure as the code has it. Take a registration whose
  callable has no signature that can be inspected, in any state that calls through the
  patched method bring it to from the state without cached names. There the resolver fails
  with the exception of the inspection, after one call of \<open>inspect.signature\<close> and without a
  second attempt in that call, and stores nothing. The wrapper called with a mapping raises
  that same exception and never calls the replaced method. Nothing remembers the failure:
  the inspections made so far are as many as the calls with a mapping, so every such call,
  the first and each later one, inspects once and fails, and a call without a mapping
  inspects nothing.
\<close>

theorem introspection_failure_fatal:
  assumes "fn_signature (fn (self s0)) = Inl e"
    and "allowed_parameter_names (self s0) = None"
    and "s = invocations (run_with_arg_sanitizer (framework_run f)) ps s0"
  shows "resolve s = (Inl e, s\<lparr>signature_calls := Suc (signature_calls s)\<rparr>)
       \<and> run_with_arg_sanitizer orig (PDict kvs) s =
           (Inl e, s\<lparr>signature_calls := Suc (signature_calls s)\<rparr>)
       \<and> self s = self s0
       \<and> signature_calls s = signature_calls s0 + length (filter isinstance_dict ps)"
proof -
  have self: "self s = self s0"
    unfolding assms(3) using assms(1,2) by (rule invocations_opaque)
  then have r: "resolve s = (Inl e, s\<lparr>signature_calls := Suc (signature_calls s)\<rparr>)"
    using assms(1,2) by (simp add: resolve_fresh_fail)
  have calls: "signature_calls s = signature_calls s0 + length (filter isinstance_dict ps)"
    unfolding assms(3) using assms(1,2) by (rule invocations_opaque_calls)
  show ?thesis
    using r run_dict_fail [OF r] self calls by simp
qed

theorem introspection_failure_fatal_witness:
  "fn_signature (fn (self (initial opaque_tool))) = Inl (Exn ''ValueError'' ''no signature found'')
   \<and> allowed_parameter_names (self (initial opaque_tool)) = None
   \<and> invocations (run_with_arg_sanitizer (framework_run echo)) [call_payload, PNone]
        (initial opaque_tool) = (initial opaque_tool)\<lparr>signature_calls := 1\<rparr>
   \<and> run_with_arg_sanitizer (framework_run echo) call_payload
        ((initial opaque_tool)\<lparr>signature_calls := 1\<rparr>) =
       (Inl (Exn ''ValueError'' ''no signature found''), (initial opaque_tool)\<lparr>signature_calls := 2\<rparr>)"
proof -
  have a: "fn_signature (fn (self (initial opaque_tool))) = Inl (Exn ''ValueError'' ''no signature found'')"
    by (simp add: initial_def opaque_tool_def)
  have b: "allowed_parameter_names (self (initial opaque_tool)) = None"
    by (simp add: initial_def opaque_tool_def)
  have c: "invocations (run_with_arg_sanitizer (framework_run echo)) [call_payload, PNone]
             (initial opaque_tool) = (initial opaque_tool)\<lparr>signature_calls := 1\<rparr>"
    by (simp add: run_with_arg_sanitizer_def resolve_def framework_run_def echo_def
        call_payload_def initial_def opaque_tool_def)
  have d: "run_with_arg_sanitizer (framework_run echo) call_payload
        ((initial opaque_tool)\<lparr>signature_calls := 1\<rparr>) =
       (Inl (Exn ''ValueError'' ''no signature found''), (initial opaque_tool)\<lparr>signature_calls := 2\<rparr>)"
    using introspection_failure_fatal
      [OF a b c [symmetric], where orig = "framework_run echo" and kvs = "items call_payload"]
    by (simp add: call_payload_def)
  from a b c d show ?thesis by blast
qed

text \<open>
  C7 as stated fails: on a tool whose callable has no signature, a first call without a
  mapping returns the replaced method's value and shows no failure, and of two calls with a
  mapping the second inspects the signature again.
\<close>

theorem introspection_retried_counterexample:
  "run_with_arg_sanitizer (framework_run echo) (PStr ''not-a-mapping'') (initial opaque_tool) =
     (Inr (PStr ''not-a-mapping''), initial opaque_tool)
   \<and> signature_calls (initial opaque_tool) = 0
   \<and> signature_calls
       (invocations (run_with_arg_sanitizer (framework_run echo)) [call_payload, call_payload]
          (initial opaque_tool)) = 2"
  by (simp add: run_with_arg_sanitizer_def resolve_def framework_run_def echo_def
      call_payload_def initial_def opaque_tool_def)

section \<open>Installing the wrapper twice\<close>










section \<open>Calls with a payload that is not a mapping\<close>

text \<open>
  C10. A call whose payload is not a mapping goes straight to the replaced method: its
  outcome is that method's outcome, the cache attribute is left as it was and
  \<open>inspect.signature\<close> is not called. This holds for every tool, so also for one whose
  callable has no signature that can be inspected.
\<close>

theorem non_mapping_call_skips_resolver:
  assumes "\<not> isinstance_dict arguments"
  shows "run_with_arg_sanitizer (framework_run f) arguments s =
           (fst (f (self s) arguments (framework s)),
            s\<lparr>framework := snd (f (self s) arguments (framework s))\<rparr>)
       \<and> allowed_parameter_names (self (snd (run_with_arg_sanitizer (framework_run f) arguments s)))
           = allowed_parameter_names (self s)
       \<and> signature_calls (snd (run_with_arg_sanitizer (framework_run f) arguments s))
           = signature_calls s"
  using assms by (simp add: run_not_dict framework_run_def split: prod.splits)

theorem non_mapping_call_skips_resolver_witness:
  "\<not> isinstance_dict (PList [PInt 1])
   \<and> fn_signature (fn (self (initial opaque_tool))) = Inl (Exn ''ValueError'' ''no signature found'')
   \<and> run_with_arg_sanitizer (framework_run echo) (PList [PInt 1]) (initial opaque_tool) =
       (Inr (PList [PInt 1]), initial opaque_tool)"
proof -
  have h: "\<not> isinstance_dict (PList [PInt 1])" by simp
  show ?thesis
    using h non_mapping_call_skips_resolver [OF h, of echo "initial opaque_tool"]
    by (simp add: echo_def initial_def opaque_tool_def)
qed

end
